theory Spec2Isabelle
  imports Complex_Main
begin

section \<open>Numbers\<close>

text \<open>
  The notebook computes with NumPy float64 values. They are idealised here: a finite
  value is an exact real (no rounding, no overflow, no signed zero), and the three
  non-finite values \<open>inf\<close>, \<open>-inf\<close> and \<open>nan\<close> behave as IEEE 754 arithmetic makes
  them behave. Division by zero does not raise in NumPy or pandas: it gives
  \<open>nan\<close> for \<open>0/0\<close> and a signed infinity otherwise.
\<close>

datatype npfloat = Fin real | PInf | NInf | NaN

fun fadd :: "npfloat \<Rightarrow> npfloat \<Rightarrow> npfloat" where
  "fadd (Fin a) (Fin b) = Fin (a + b)"
| "fadd NaN _ = NaN"
| "fadd _ NaN = NaN"
| "fadd PInf NInf = NaN"
| "fadd NInf PInf = NaN"
| "fadd PInf _ = PInf"
| "fadd _ PInf = PInf"
| "fadd NInf _ = NInf"
| "fadd _ NInf = NInf"

definition fneg :: "npfloat \<Rightarrow> npfloat" where
  "fneg x = (case x of Fin a \<Rightarrow> Fin (- a) | PInf \<Rightarrow> NInf | NInf \<Rightarrow> PInf | NaN \<Rightarrow> NaN)"

definition signed_inf :: "npfloat \<Rightarrow> real \<Rightarrow> npfloat" where
  \<comment> \<open>an infinity times (or divided by) a finite value: the sign follows the finite value\<close>
  "signed_inf i a = (if 0 < a then i else if a < 0 then fneg i else NaN)"

fun fmul :: "npfloat \<Rightarrow> npfloat \<Rightarrow> npfloat" where
  "fmul (Fin a) (Fin b) = Fin (a * b)"
| "fmul NaN _ = NaN"
| "fmul _ NaN = NaN"
| "fmul (Fin a) i = signed_inf i a"
| "fmul i (Fin b) = signed_inf i b"
| "fmul PInf PInf = PInf"
| "fmul NInf NInf = PInf"
| "fmul PInf NInf = NInf"
| "fmul NInf PInf = NInf"

fun fdiv :: "npfloat \<Rightarrow> npfloat \<Rightarrow> npfloat" where
  "fdiv (Fin a) (Fin b) =
     (if b \<noteq> 0 then Fin (a / b)
      else if 0 < a then PInf else if a < 0 then NInf else NaN)"
| "fdiv NaN _ = NaN"
| "fdiv _ NaN = NaN"
| "fdiv (Fin a) _ = Fin 0"
| "fdiv i (Fin b) = (if b < 0 then fneg i else i)"
| "fdiv _ _ = NaN"

text \<open>
  \<open>ndarray.sum()\<close>: the sum of all elements, \<open>0.0\<close> for an empty array; a \<open>nan\<close>
  element makes the sum \<open>nan\<close>. The idealised addition is associative and commutative,
  so the order in which NumPy adds does not matter.
\<close>

primrec np_sum :: "npfloat list \<Rightarrow> npfloat" where
  "np_sum [] = Fin 0"
| "np_sum (x # xs) = fadd x (np_sum xs)"

text \<open>
  The pandas reductions (\<open>Series.sum\<close>, \<open>DataFrame.sum\<close>) skip \<open>nan\<close> by default
  (\<open>skipna=True\<close>).
\<close>

definition nansum :: "npfloat list \<Rightarrow> npfloat" where
  "nansum xs = np_sum (filter (\<lambda>c. c \<noteq> NaN) xs)"

section \<open>Arrays, series and frames\<close>

datatype error = ValueError | KeyError

text \<open>
  \<open>np.meshgrid(x, y)\<close> returns two arrays of shape \<open>(len(y), len(x))\<close>: the first
  holds copies of \<open>x\<close> as rows, the second holds copies of \<open>y\<close> as columns.
\<close>

definition meshgrid :: "'a list \<Rightarrow> 'b list \<Rightarrow> 'a list list \<times> 'b list list" where
  "meshgrid x y = (map (\<lambda>_. x) y, map (\<lambda>v. map (\<lambda>_. v) x) y)"

text \<open>An elementwise binary operation on two arrays of the same shape.\<close>

definition elementwise :: "('a \<Rightarrow> 'b \<Rightarrow> 'c) \<Rightarrow> 'a list list \<Rightarrow> 'b list list \<Rightarrow> 'c list list" where
  "elementwise f X Y = map2 (map2 f) X Y"

text \<open>
  A \<open>Series\<close> (and a \<open>Pmf\<close>, which is a \<open>Series\<close>) is a sequence of labelled values:
  the labels are the quantities \<open>qs\<close>, the values the probabilities \<open>ps\<close>.
\<close>

type_synonym series = "(real \<times> npfloat) list"

definition qs :: "series \<Rightarrow> real list" where
  "qs pmf = map fst pmf"

definition ps :: "series \<Rightarrow> npfloat list" where
  "ps pmf = map snd pmf"

text \<open>
  A \<open>DataFrame\<close>: row labels, column labels, and the cells row by row. A frame is
  rectangular: \<open>wf_df\<close>.
\<close>

record dataframe =
  df_index :: "real list"
  df_columns :: "real list"
  df_data :: "npfloat list list"

definition wf_df :: "dataframe \<Rightarrow> bool" where
  "wf_df df \<longleftrightarrow> length (df_data df) = length (df_index df) \<and>
     list_all (\<lambda>row. length row = length (df_columns df)) (df_data df)"

text \<open>
  \<open>pd.DataFrame(a, index=i, columns=c)\<close> raises \<open>ValueError\<close> when the shape of \<open>a\<close>
  is not \<open>(len(i), len(c))\<close>.
\<close>

definition DataFrame :: "npfloat list list \<Rightarrow> real list \<Rightarrow> real list \<Rightarrow> error + dataframe" where
  "DataFrame a i c =
     (if length a = length i \<and> list_all (\<lambda>row. length row = length c) a
      then Inr \<lparr>df_index = i, df_columns = c, df_data = a\<rparr>
      else Inl ValueError)"

definition to_numpy :: "dataframe \<Rightarrow> npfloat list" where
  \<comment> \<open>the cells of \<open>joint.to_numpy()\<close>, flattened row by row\<close>
  "to_numpy df = concat (df_data df)"

section \<open>The heap\<close>

text \<open>
  Frames are objects: a variable holds a reference, and \<open>joint /= prob_data\<close> changes
  the object every reference to it sees. The heap maps references to frames;
  \<open>next_ref\<close> is the first reference not yet allocated.
\<close>

type_synonym ref = nat

record heap =
  store :: "ref \<Rightarrow> dataframe"
  next_ref :: ref

definition alloc :: "heap \<Rightarrow> dataframe \<Rightarrow> ref \<times> heap" where
  "alloc h df = (next_ref h, \<lparr>store = (store h)(next_ref h := df), next_ref = Suc (next_ref h)\<rparr>)"

section \<open>The joint distribution\<close>

text \<open>
  \<^verbatim>\<open>
  def make_joint(pmf1, pmf2):
      X, Y = np.meshgrid(pmf1, pmf2)
      return pd.DataFrame(X * Y, columns=pmf1.qs, index=pmf2.qs)
  \<close>
\<close>

definition make_joint :: "heap \<Rightarrow> series \<Rightarrow> series \<Rightarrow> error + (ref \<times> heap)" where
  "make_joint h pmf1 pmf2 =
     (let (X, Y) = meshgrid (ps pmf1) (ps pmf2) in
      case DataFrame (elementwise fmul X Y) (qs pmf2) (qs pmf1) of
        Inl e \<Rightarrow> Inl e
      | Inr df \<Rightarrow> Inr (alloc h df))"

section \<open>The likelihood\<close>

text \<open>
  \<^verbatim>\<open>
  x = joint.columns
  y = joint.index
  X, Y = np.meshgrid(x, y)
  A_taller = (X > Y)
  a = np.where(A_taller, 1, 0)
  likelihood = pd.DataFrame(a, index=x, columns=y)
  \<close>
\<close>

definition np_where :: "bool list list \<Rightarrow> npfloat \<Rightarrow> npfloat \<Rightarrow> npfloat list list" where
  "np_where c t f = map (map (\<lambda>b. if b then t else f)) c"

definition likelihood_of :: "real list \<Rightarrow> real list \<Rightarrow> error + dataframe" where
  "likelihood_of x y =
     (let (X, Y) = meshgrid x y;
          A_taller = elementwise (\<lambda>u v. u > v) X Y;
          a = np_where A_taller (Fin 1) (Fin 0)
      in DataFrame a x y)"

definition likelihood :: "heap \<Rightarrow> ref \<Rightarrow> error + (ref \<times> heap)" where
  "likelihood h joint =
     (let x = df_columns (store h joint); y = df_index (store h joint) in
      case likelihood_of x y of
        Inl e \<Rightarrow> Inl e
      | Inr df \<Rightarrow> Inr (alloc h df))"

section \<open>The update\<close>

text \<open>
  \<open>joint * likelihood\<close> is the pandas product of two frames. pandas multiplies cell by
  cell when the two frames carry the same labels; otherwise it aligns them first: the
  result is labelled by the union of the labels on each axis (sorted, unless one side
  has no labels), and a cell whose row or column is missing from either operand is
  \<open>nan\<close>. No exception is raised. The alignment is modelled for labels without
  duplicates.
\<close>

definition join_labels :: "real list \<Rightarrow> real list \<Rightarrow> real list" where
  "join_labels xs ys =
     (if xs = ys then xs else if xs = [] then ys else if ys = [] then xs
      else sort (remdups (xs @ ys)))"

definition cell :: "dataframe \<Rightarrow> real \<Rightarrow> real \<Rightarrow> npfloat option" where
  "cell df r c =
     (case map_of (zip (df_index df) (df_data df)) r of
        None \<Rightarrow> None
      | Some row \<Rightarrow> map_of (zip (df_columns df) row) c)"

definition indexed_same :: "dataframe \<Rightarrow> dataframe \<Rightarrow> bool" where
  "indexed_same a b \<longleftrightarrow> df_index a = df_index b \<and> df_columns a = df_columns b"

definition df_mul :: "dataframe \<Rightarrow> dataframe \<Rightarrow> dataframe" where
  "df_mul a b =
     (if indexed_same a b
      then \<lparr>df_index = df_index a, df_columns = df_columns a,
            df_data = elementwise fmul (df_data a) (df_data b)\<rparr>
      else
        (let i = join_labels (df_index a) (df_index b);
             c = join_labels (df_columns a) (df_columns b)
         in \<lparr>df_index = i, df_columns = c,
              df_data = map (\<lambda>r. map (\<lambda>k.
                 (case (cell a r k, cell b r k) of
                    (Some u, Some v) \<Rightarrow> fmul u v
                  | _ \<Rightarrow> NaN)) c) i\<rparr>))"

definition df_div :: "dataframe \<Rightarrow> npfloat \<Rightarrow> dataframe" where
  \<comment> \<open>a frame divided by a scalar\<close>
  "df_div df s = df\<lparr>df_data := map (map (\<lambda>c. fdiv c s)) (df_data df)\<rparr>"

text \<open>\<open>posterior = joint * likelihood\<close>: the product is a new frame.\<close>

definition mul :: "heap \<Rightarrow> ref \<Rightarrow> ref \<Rightarrow> ref \<times> heap" where
  "mul h a b = alloc h (df_mul (store h a) (store h b))"

text \<open>
  \<^verbatim>\<open>
  def normalize(joint):
      prob_data = joint.to_numpy().sum()
      joint /= prob_data
      return prob_data
  \<close>
  The division is in place: it changes the object \<open>joint\<close> refers to. (The
  function is \<open>normalize_df\<close> here: \<open>normalize\<close> is a constant of HOL.)
\<close>

definition normalize_df :: "heap \<Rightarrow> ref \<Rightarrow> npfloat \<times> heap" where
  "normalize_df h joint =
     (let prob_data = np_sum (to_numpy (store h joint));
          h' = h\<lparr>store := (store h)(joint := df_div (store h joint) prob_data)\<rparr>
      in (prob_data, h'))"

text \<open>
  The update step of the notebook, \<open>posterior = joint * likelihood\<close> followed by
  \<open>normalize(posterior)\<close>: it yields the posterior and the probability of the data.
\<close>

definition update :: "heap \<Rightarrow> ref \<Rightarrow> ref \<Rightarrow> (ref \<times> npfloat) \<times> heap" where
  "update h joint lik =
     (let (posterior, h1) = mul h joint lik;
          (prob_data, h2) = normalize_df h1 posterior
      in ((posterior, prob_data), h2))"

section \<open>Marginal and conditional distributions\<close>

definition column_at :: "dataframe \<Rightarrow> nat \<Rightarrow> npfloat list" where
  \<comment> \<open>the cells of the column at position \<open>j\<close>; a frame is rectangular, so \<open>j\<close> is in range in every row\<close>
  "column_at df j = map (\<lambda>row. row ! j) (df_data df)"

text \<open>
  \<open>joint.sum(axis=0)\<close> adds up each column and is labelled by the columns;
  \<open>joint.sum(axis=1)\<close> adds up each row and is labelled by the index; any other axis
  number raises \<open>ValueError\<close>.
\<close>

definition df_sum :: "dataframe \<Rightarrow> int \<Rightarrow> error + series" where
  "df_sum df axis =
     (if axis = 0
      then Inr (zip (df_columns df)
                 (map (\<lambda>j. nansum (column_at df j)) [0..<length (df_columns df)]))
      else if axis = 1
      then Inr (zip (df_index df) (map nansum (df_data df)))
      else Inl ValueError)"

definition Pmf :: "series \<Rightarrow> series" where
  \<comment> \<open>\<open>Pmf(series)\<close> copies the data\<close>
  "Pmf s = s"

text \<open>
  \<^verbatim>\<open>
  def marginal(joint, axis):
      return Pmf(joint.sum(axis=axis))
  \<close>
\<close>

definition marginal :: "dataframe \<Rightarrow> int \<Rightarrow> error + series" where
  "marginal joint axis =
     (case df_sum joint axis of Inl e \<Rightarrow> Inl e | Inr s \<Rightarrow> Inr (Pmf s))"

primrec index_of :: "real list \<Rightarrow> real \<Rightarrow> nat option" where
  "index_of [] v = None"
| "index_of (x # xs) v = (if x = v then Some 0 else map_option Suc (index_of xs v))"

text \<open>
  \<open>posterior[v]\<close> selects the column labelled \<open>v\<close>, as a series labelled by the
  index; it raises \<open>KeyError\<close> when no column carries that label.
\<close>

definition getitem :: "dataframe \<Rightarrow> real \<Rightarrow> error + series" where
  "getitem df v =
     (case index_of (df_columns df) v of
        None \<Rightarrow> Inl KeyError
      | Some j \<Rightarrow> Inr (zip (df_index df) (column_at df j)))"

text \<open>
  \<open>Pmf.normalize()\<close> of the \<open>empiricaldist\<close> library divides the probabilities by
  their total and returns the total. The receiver is changed; the model
  returns it.
\<close>

definition pmf_normalize :: "series \<Rightarrow> npfloat \<times> series" where
  "pmf_normalize pmf =
     (let total = nansum (ps pmf) in (total, map (\<lambda>(q, p). (q, fdiv p total)) pmf))"

text \<open>
  \<^verbatim>\<open>
  column_170 = posterior[170]
  cond_B = Pmf(column_170)
  cond_B.normalize()
  \<close>
  with the fixed height as a parameter.
\<close>

definition cond_B :: "dataframe \<Rightarrow> real \<Rightarrow> error + series" where
  "cond_B posterior v =
     (case getitem posterior v of
        Inl e \<Rightarrow> Inl e
      | Inr column \<Rightarrow> Inr (snd (pmf_normalize (Pmf column))))"

section \<open>The height example\<close>

definition arange :: "real \<Rightarrow> real \<Rightarrow> real \<Rightarrow> real list" where
  "arange start stop step =
     map (\<lambda>i. start + real i * step) [0..<nat \<lceil>(stop - start) / step\<rceil>]"

definition norm_pdf :: "real \<Rightarrow> real \<Rightarrow> real \<Rightarrow> real" where
  \<comment> \<open>the density of \<open>scipy.stats.norm(mean, std)\<close>\<close>
  "norm_pdf m s x = exp (- ((x - m) / s)\<^sup>2 / 2) / (s * sqrt (2 * pi))"

text \<open>
  \<^verbatim>\<open>
  mean = 178
  std = 7.7
  qs = np.arange(mean-24, mean+24, 0.5)
  ps = norm(mean, std).pdf(qs)
  prior = Pmf(ps, qs)
  prior.normalize()
  \<close>
\<close>

definition height_qs :: "real list" where
  "height_qs = arange (178 - 24) (178 + 24) (1 / 2)"

definition prior :: series where
  "prior =
     (let ps = map (\<lambda>q. Fin (norm_pdf 178 (77 / 10) q)) height_qs
      in snd (pmf_normalize (zip height_qs ps)))"

text \<open>
  The steps of the notebook from two priors to the joint posterior: the joint prior
  (\<open>make_joint\<close>), the likelihood of "A is taller than B", their product, and its
  normalization in place. The result is the reference of the posterior.
  \<^verbatim>\<open>
  joint = make_joint(prior, prior)
  ...
  likelihood = pd.DataFrame(a, index=x, columns=y)
  posterior = joint * likelihood
  normalize(posterior)
  \<close>
\<close>

definition joint_posterior :: "heap \<Rightarrow> series \<Rightarrow> series \<Rightarrow> error + (ref \<times> heap)" where
  "joint_posterior h pmf1 pmf2 =
     (case make_joint h pmf1 pmf2 of
        Inl e \<Rightarrow> Inl e
      | Inr (joint, h1) \<Rightarrow>
          (case likelihood h1 joint of
             Inl e \<Rightarrow> Inl e
           | Inr (lik, h2) \<Rightarrow>
               (let ((posterior, prob_data), h3) = update h2 joint lik
                in Inr (posterior, h3))))"

definition height_posterior :: "heap \<Rightarrow> error + (ref \<times> heap)" where
  "height_posterior h = joint_posterior h prior prior"

section \<open>Tables of real weights\<close>

text \<open>
  The weights of a distribution and the cells of a joint table are real numbers: a frame
  whose cells are all finite is \<open>real_frame\<close> of a matrix of reals, a distribution with
  finite weights is \<open>real_pmf\<close> of a list of (quantity, weight) pairs.
\<close>

definition real_frame :: "real list \<Rightarrow> real list \<Rightarrow> real list list \<Rightarrow> dataframe" where
  \<comment> \<open>the frame with the given index, columns and real cells\<close>
  "real_frame i c M = \<lparr>df_index = i, df_columns = c, df_data = map (map Fin) M\<rparr>"

definition real_pmf :: "(real \<times> real) list \<Rightarrow> series" where
  "real_pmf d = map (\<lambda>(q, w). (q, Fin w)) d"

definition rect :: "nat \<Rightarrow> nat \<Rightarrow> 'a list list \<Rightarrow> bool" where
  \<comment> \<open>a matrix of \<open>n\<close> rows and \<open>m\<close> columns\<close>
  "rect n m M \<longleftrightarrow> length M = n \<and> list_all (\<lambda>row. length row = m) M"

definition outer :: "real list \<Rightarrow> real list \<Rightarrow> real list list" where
  \<comment> \<open>the outer product: one row for each element of the second list\<close>
  "outer u v = map (\<lambda>b. map (\<lambda>a. a * b) u) v"

definition small_prior :: "(real \<times> real) list" where
  \<comment> \<open>the weights 0.2, 0.3, 0.5 over the quantities 1, 2, 3\<close>
  "small_prior = [(1, 1/5), (2, 3/10), (3, 1/2)]"

definition empty_frame :: dataframe where
  "empty_frame = \<lparr>df_index = [], df_columns = [], df_data = []\<rparr>"

definition empty_heap :: heap where
  \<comment> \<open>the heap before any frame is made\<close>
  "empty_heap = \<lparr>store = (\<lambda>_. empty_frame), next_ref = 0\<rparr>"

definition times_cells :: "real list list \<Rightarrow> real list list \<Rightarrow> real list list" where
  \<comment> \<open>the product of two matrices of the same shape, cell by cell\<close>
  "times_cells A B = map2 (map2 (*)) A B"

definition cells_sum :: "real list list \<Rightarrow> real" where
  \<comment> \<open>the sum of all cells of a matrix\<close>
  "cells_sum M = sum_list (concat M)"

definition heap_of :: "dataframe list \<Rightarrow> heap" where
  \<comment> \<open>the heap that holds the given frames at the references 0, 1, ...\<close>
  "heap_of dfs =
     \<lparr>store = (\<lambda>r. if r < length dfs then dfs ! r else empty_frame), next_ref = length dfs\<rparr>"

definition ones_like :: "real list list \<Rightarrow> real list list" where
  \<comment> \<open>a matrix of ones of the same shape\<close>
  "ones_like A = map (map (\<lambda>_. 1)) A"

definition div_by_zero :: "real \<Rightarrow> npfloat" where
  \<comment> \<open>a finite value divided by zero\<close>
  "div_by_zero x = (if 0 < x then PInf else if x < 0 then NInf else NaN)"

definition nonneg :: "real list list \<Rightarrow> bool" where
  \<comment> \<open>no cell of the matrix is negative\<close>
  "nonneg M \<longleftrightarrow> list_all (list_all (\<lambda>x. 0 \<le> x)) M"

definition all_nan :: "dataframe \<Rightarrow> bool" where
  \<comment> \<open>every cell of the frame is \<open>nan\<close>\<close>
  "all_nan df \<longleftrightarrow> list_all (list_all (\<lambda>c. c = NaN)) (df_data df)"

definition taller :: "real list \<Rightarrow> real list \<Rightarrow> real list list" where
  \<comment> \<open>the cells of the likelihood: 1 where the column's height exceeds the row's\<close>
  "taller x y = map (\<lambda>yv. map (\<lambda>xv. if yv < xv then 1 else 0) x) y"

definition taller_product :: "(real \<times> real) list \<Rightarrow> real list list" where
  \<comment> \<open>the joint prior of a distribution with itself, times the likelihood, cell by cell\<close>
  "taller_product d =
     map (\<lambda>(yv, b). map (\<lambda>(xv, a). a * b * (if yv < xv then 1 else 0)) d) d"

section \<open>Basic facts\<close>

lemma np_sum_Fin: "np_sum (map Fin rs) = Fin (sum_list rs)"
  by (induction rs) simp_all

lemma nansum_Fin: "nansum (map Fin rs) = Fin (sum_list rs)"
  by (simp add: nansum_def np_sum_Fin)

lemma to_numpy_real_frame: "to_numpy (real_frame i c M) = map Fin (concat M)"
  by (simp add: to_numpy_def real_frame_def map_concat)

lemma qs_real_pmf: "qs (real_pmf d) = map fst d"
  by (simp add: qs_def real_pmf_def case_prod_unfold comp_def)

lemma ps_real_pmf: "ps (real_pmf d) = map Fin (map snd d)"
  by (simp add: ps_def real_pmf_def case_prod_unfold comp_def)

lemma map2_same: "map2 f (map g xs) (map k xs) = map (\<lambda>x. f (g x) (k x)) xs"
  by (induction xs) simp_all

section \<open>The joint table is the outer product\<close>

lemma outer_data:
  "elementwise fmul (fst (meshgrid (map Fin u) (map Fin v))) (snd (meshgrid (map Fin u) (map Fin v)))
     = map (map Fin) (map (\<lambda>b. map (\<lambda>a. a * b) u) v)"
proof -
  have row: "map2 fmul (map Fin u) (map (\<lambda>_. Fin b) u) = map Fin (map (\<lambda>a. a * b) u)" for b
    using map2_same [of fmul Fin u "\<lambda>_. Fin b"] by (simp add: comp_def)
  have "map2 (map2 fmul) (map (\<lambda>_. map Fin u) v) (map (\<lambda>b. map (\<lambda>_. Fin b) u) v)
      = map (\<lambda>b. map2 fmul (map Fin u) (map (\<lambda>_. Fin b) u)) v"
    by (rule map2_same)
  then show ?thesis
    by (simp add: meshgrid_def elementwise_def row comp_def)
qed

lemma sum_outer:
  "sum_list (concat (map (\<lambda>b. map (\<lambda>a. a * b) u) (v::real list))) = sum_list u * sum_list v"
  by (induction v) (simp_all add: sum_list_mult_const distrib_left)

lemma make_joint_real:
  "make_joint h (real_pmf d1) (real_pmf d2) =
     Inr (alloc h (real_frame (map fst d2) (map fst d1) (outer (map snd d1) (map snd d2))))"
proof -
  let ?u = "map snd d1" and ?v = "map snd d2"
  have "DataFrame (map (map Fin) (map (\<lambda>b. map (\<lambda>a. a * b) ?u) ?v)) (map fst d2) (map fst d1)
      = Inr (real_frame (map fst d2) (map fst d1) (map (\<lambda>b. map (\<lambda>a. a * b) ?u) ?v))"
    by (simp add: DataFrame_def real_frame_def list_all_iff)
  then show ?thesis
    using outer_data [of ?u ?v]
    by (simp add: make_joint_def outer_def qs_real_pmf ps_real_pmf case_prod_unfold Let_def
        del: map_map)
qed

text \<open>
  Claim C2. For two distributions with real weights, \<open>make_joint\<close> returns a new
  frame whose columns are labelled by the quantities of the first distribution and whose
  rows are labelled by the quantities of the second; the cell in row \<open>i\<close> and column
  \<open>j\<close> is the weight of the \<open>j\<close>-th quantity of the first times the weight of the
  \<open>i\<close>-th quantity of the second. The cells add up to the product of the two total
  weights, hence to 1 when both distributions are normalized. (Exact arithmetic: the
  floating-point sum agrees up to rounding.)
\<close>

theorem make_joint_outer_product:
  fixes d1 d2 :: "(real \<times> real) list"
  shows "\<exists>J. make_joint h (real_pmf d1) (real_pmf d2) = Inr (alloc h J)
     \<and> wf_df J
     \<and> df_columns J = map fst d1 \<and> df_index J = map fst d2
     \<and> (\<forall>i<length d2. \<forall>j<length d1. df_data J ! i ! j = Fin (snd (d1 ! j) * snd (d2 ! i)))
     \<and> np_sum (to_numpy J) = Fin (sum_list (map snd d1) * sum_list (map snd d2))
     \<and> (sum_list (map snd d1) = 1 \<and> sum_list (map snd d2) = 1 \<longrightarrow> np_sum (to_numpy J) = Fin 1)"
proof -
  let ?J = "real_frame (map fst d2) (map fst d1) (outer (map snd d1) (map snd d2))"
  have run: "make_joint h (real_pmf d1) (real_pmf d2) = Inr (alloc h ?J)"
    by (rule make_joint_real)
  have wf: "wf_df ?J"
    by (simp add: wf_df_def real_frame_def outer_def list_all_iff)
  have labels: "df_columns ?J = map fst d1 \<and> df_index ?J = map fst d2"
    by (simp add: real_frame_def)
  have cells: "\<forall>i<length d2. \<forall>j<length d1. df_data ?J ! i ! j = Fin (snd (d1 ! j) * snd (d2 ! i))"
    by (simp add: real_frame_def outer_def)
  have mass: "np_sum (to_numpy ?J) = Fin (sum_list (map snd d1) * sum_list (map snd d2))"
    by (simp only: to_numpy_real_frame np_sum_Fin outer_def sum_outer)
  from run wf labels cells mass show ?thesis
    by (intro exI [of _ ?J]) simp
qed

theorem make_joint_outer_product_witness:
  "\<exists>J. make_joint empty_heap (real_pmf small_prior) (real_pmf small_prior) = Inr (alloc empty_heap J)
     \<and> df_data J ! 0 ! 2 = Fin (1/10) \<and> np_sum (to_numpy J) = Fin 1"
proof -
  have m: "sum_list (map snd small_prior) = 1" by (simp add: small_prior_def)
  from make_joint_outer_product [of empty_heap small_prior small_prior] obtain J where
    J: "make_joint empty_heap (real_pmf small_prior) (real_pmf small_prior) = Inr (alloc empty_heap J)"
    and c: "\<forall>i<length small_prior. \<forall>j<length small_prior. df_data J ! i ! j = Fin (snd (small_prior ! j) * snd (small_prior ! i))"
    and s: "sum_list (map snd small_prior) = 1 \<and> sum_list (map snd small_prior) = 1 \<longrightarrow> np_sum (to_numpy J) = Fin 1"
    by blast
  have "df_data J ! 0 ! 2 = Fin (snd (small_prior ! 2) * snd (small_prior ! 0))"
    using c by (simp add: small_prior_def)
  then have "df_data J ! 0 ! 2 = Fin (1/10)" by (simp add: small_prior_def)
  with J s m show ?thesis by blast
qed

section \<open>The update on tables of real weights\<close>

lemma update_eq:
  "update h j l =
     ((next_ref h, np_sum (to_numpy (df_mul (store h j) (store h l)))),
      \<lparr>store = (store h)(next_ref h :=
          df_div (df_mul (store h j) (store h l)) (np_sum (to_numpy (df_mul (store h j) (store h l))))),
       next_ref = Suc (next_ref h)\<rparr>)"
  by (simp add: update_def mul_def alloc_def normalize_df_def Let_def)

lemma map2_Fin: "map2 fmul (map Fin a) (map Fin b) = map Fin (map2 (*) a b)"
  by (induction a arbitrary: b) (simp, case_tac b, simp_all)

lemma elementwise_Fin:
  "elementwise fmul (map (map Fin) A) (map (map Fin) B) = map (map Fin) (times_cells A B)"
  unfolding elementwise_def times_cells_def
  by (induction A arbitrary: B) (simp, case_tac B, simp_all add: map2_Fin)

lemma df_mul_real_frame:
  "df_mul (real_frame i c A) (real_frame i c B) = real_frame i c (times_cells A B)"
  by (simp add: df_mul_def indexed_same_def real_frame_def elementwise_Fin)

lemma df_div_real_frame:
  "S \<noteq> 0 \<Longrightarrow> df_div (real_frame i c M) (Fin S) = real_frame i c (map (map (\<lambda>x. x / S)) M)"
  by (simp add: df_div_def real_frame_def comp_def)

lemma sum_list_div: "sum_list (map (\<lambda>x. x / S) xs) = sum_list xs / (S::real)"
  by (induction xs) (simp_all add: add_divide_distrib)

lemma cells_sum_divide: "cells_sum (map (map (\<lambda>x. x / S)) M) = cells_sum M / S"
  unfolding cells_sum_def
  by (induction M) (simp_all add: sum_list_div add_divide_distrib)

lemma update_real_frames:
  assumes J: "store h j = real_frame i c A" and L: "store h l = real_frame i c B"
  shows "update h j l =
     ((next_ref h, Fin (cells_sum (times_cells A B))),
      \<lparr>store = (store h)(next_ref h :=
          df_div (real_frame i c (times_cells A B)) (Fin (cells_sum (times_cells A B)))),
       next_ref = Suc (next_ref h)\<rparr>)"
proof -
  have prod: "df_mul (store h j) (store h l) = real_frame i c (times_cells A B)"
    by (simp only: J L df_mul_real_frame)
  have ev: "np_sum (to_numpy (real_frame i c (times_cells A B))) = Fin (cells_sum (times_cells A B))"
    by (simp only: to_numpy_real_frame np_sum_Fin cells_sum_def)
  show ?thesis
    by (simp only: update_eq prod ev)
qed

text \<open>
  Claim C1. When the joint prior and the likelihood carry the same labels (and real
  cells), the update multiplies them cell by cell, returns the sum of the products as
  the probability of the data, and leaves as posterior each product divided by that sum.
  When the sum is not zero the posterior is again a table of reals and its cells add up
  to 1. (Exact arithmetic: the floating-point sum agrees up to rounding.)
\<close>

theorem update_product_normalized:
  assumes J: "store h j = real_frame i c A" and L: "store h l = real_frame i c B"
  shows "\<exists>h'. update h j l = ((next_ref h, Fin (cells_sum (times_cells A B))), h')
     \<and> df_index (store h' (next_ref h)) = i \<and> df_columns (store h' (next_ref h)) = c
     \<and> df_data (store h' (next_ref h)) =
          map (map (\<lambda>x. fdiv (Fin x) (Fin (cells_sum (times_cells A B))))) (times_cells A B)
     \<and> (cells_sum (times_cells A B) \<noteq> 0 \<longrightarrow>
          store h' (next_ref h) =
            real_frame i c (map (map (\<lambda>x. x / cells_sum (times_cells A B))) (times_cells A B))
          \<and> np_sum (to_numpy (store h' (next_ref h))) = Fin 1)"
proof -
  let ?P = "times_cells A B"
  let ?S = "cells_sum ?P"
  let ?post = "df_div (real_frame i c ?P) (Fin ?S)"
  let ?h' = "\<lparr>store = (store h)(next_ref h := ?post), next_ref = Suc (next_ref h)\<rparr>"
  have run: "update h j l = ((next_ref h, Fin ?S), ?h')"
    using J L by (rule update_real_frames)
  have post: "store ?h' (next_ref h) = ?post" by simp
  have labels: "df_index ?post = i \<and> df_columns ?post = c"
    by (simp add: df_div_def real_frame_def)
  have cells: "df_data ?post = map (map (\<lambda>x. fdiv (Fin x) (Fin ?S))) ?P"
    by (simp add: df_div_def real_frame_def comp_def)
  have norm: "?post = real_frame i c (map (map (\<lambda>x. x / ?S)) ?P)
      \<and> np_sum (to_numpy ?post) = Fin 1" if nz: "?S \<noteq> 0"
  proof -
    have eq: "?post = real_frame i c (map (map (\<lambda>x. x / ?S)) ?P)"
      using nz by (rule df_div_real_frame)
    have "np_sum (to_numpy (real_frame i c (map (map (\<lambda>x. x / ?S)) ?P))) = Fin (?S / ?S)"
      using cells_sum_divide [of ?S ?P] by (simp only: to_numpy_real_frame np_sum_Fin cells_sum_def)
    with nz eq show ?thesis by simp
  qed
  show ?thesis
    apply (rule exI [of _ ?h'])
    apply (simp only: post)
    using run labels cells norm by blast
qed


theorem update_product_normalized_witness:
  "\<exists>h'. update (heap_of [real_frame [1, 2] [1, 2] [[1/4, 1/4], [1/4, 1/4]],
                             real_frame [1, 2] [1, 2] [[0, 1], [0, 0]]]) 0 1
          = ((2, Fin (1/4)), h')
      \<and> store h' 2 = real_frame [1, 2] [1, 2] [[0, 1], [0, 0]]
      \<and> np_sum (to_numpy (store h' 2)) = Fin 1"
proof -
  let ?A = "[[1/4, 1/4], [1/4, 1/4 :: real]]" and ?B = "[[0, 1], [0, 0 :: real]]"
  let ?h = "heap_of [real_frame [1, 2] [1, 2] ?A, real_frame [1, 2] [1, 2] ?B]"
  have J: "store ?h 0 = real_frame [1, 2] [1, 2] ?A" by (simp add: heap_of_def)
  have L: "store ?h 1 = real_frame [1, 2] [1, 2] ?B" by (simp add: heap_of_def)
  have n: "next_ref ?h = 2" by (simp add: heap_of_def)
  have P: "times_cells ?A ?B = [[0, 1/4], [0, 0]]" by (simp add: times_cells_def)
  have S: "cells_sum [[0, 1/4], [0, 0 :: real]] = 1/4" by (simp add: cells_sum_def)
  have Q: "map (map (\<lambda>x. x / (1/4))) [[0, 1/4], [0, 0 :: real]] = [[0, 1], [0, 0]]" by simp
  from update_product_normalized [OF J L] show ?thesis
    unfolding n P S Q by simp blast
qed

section \<open>The identity likelihood\<close>

lemma map2_ones: "map2 (*) a (map (\<lambda>_. 1) a) = (a :: real list)"
  using map2_same [of "(*)" "\<lambda>x. x" a "\<lambda>_. 1"] by simp

lemma times_cells_ones: "times_cells A (ones_like A) = A"
proof -
  have "map2 (map2 (*)) (map (\<lambda>r. r) A) (map (map (\<lambda>_. 1)) A) = map (\<lambda>r. map2 (*) r (map (\<lambda>_. 1) r)) A"
    by (rule map2_same)
  then show ?thesis
    by (simp add: times_cells_def ones_like_def map2_ones)
qed

text \<open>
  Claim C8. For a normalized joint table (real cells adding up to 1), the update with a
  likelihood of the same labels whose cells are all ones returns the total mass of the
  table as the probability of the data and a posterior equal to the table, cell for cell.
\<close>

theorem update_ones_identity:
  assumes J: "store h j = real_frame i c A"
    and L: "store h l = real_frame i c (ones_like A)"
    and normalized: "cells_sum A = 1"
  shows "\<exists>h'. update h j l = ((next_ref h, Fin (cells_sum A)), h')
     \<and> store h' (next_ref h) = store h j"
proof -
  let ?h' = "\<lparr>store = (store h)(next_ref h := df_div (real_frame i c A) (Fin (cells_sum A))),
              next_ref = Suc (next_ref h)\<rparr>"
  have run: "update h j l = ((next_ref h, Fin (cells_sum A)), ?h')"
    using update_real_frames [OF J L] by (simp only: times_cells_ones)
  have "df_div (real_frame i c A) (Fin (cells_sum A)) = real_frame i c A"
    using normalized df_div_real_frame [of "cells_sum A" i c A] by (simp add: map_idI)
  then have "store ?h' (next_ref h) = store h j"
    using J by simp
  with run show ?thesis by blast
qed

theorem update_ones_identity_witness:
  "\<exists>h'. update (heap_of [real_frame [1, 2] [1, 2] [[1/4, 1/4], [1/4, 1/4]],
                             real_frame [1, 2] [1, 2] [[1, 1], [1, 1]]]) 0 1
          = ((2, Fin 1), h')
      \<and> store h' 2 = real_frame [1, 2] [1, 2] [[1/4, 1/4], [1/4, 1/4]]"
proof -
  let ?A = "[[1/4, 1/4], [1/4, 1/4 :: real]]"
  let ?h = "heap_of [real_frame [1, 2] [1, 2] ?A, real_frame [1, 2] [1, 2] [[1, 1], [1, 1]]]"
  have J: "store ?h 0 = real_frame [1, 2] [1, 2] ?A" by (simp add: heap_of_def)
  have L: "store ?h 1 = real_frame [1, 2] [1, 2] (ones_like ?A)"
    by (simp add: heap_of_def ones_like_def)
  have n: "next_ref ?h = 2" by (simp add: heap_of_def)
  have S: "cells_sum ?A = 1" by (simp add: cells_sum_def)
  from update_ones_identity [OF J L S] show ?thesis
    unfolding n S J by simp
qed

section \<open>Marginal distributions\<close>

lemma marginal_rows:
  "marginal (real_frame i c M) 1 = Inr (zip i (map (\<lambda>r. Fin (sum_list r)) M))"
  by (simp add: marginal_def df_sum_def Pmf_def real_frame_def nansum_Fin comp_def)

lemma column_at_real_frame:
  assumes "list_all (\<lambda>r. j < length r) M"
  shows "column_at (real_frame i c M) j = map Fin (map (\<lambda>r. r ! j) M)"
  using assms by (induction M) (simp_all add: column_at_def real_frame_def)

lemma marginal_columns:
  assumes "list_all (\<lambda>r. length r = length c) M"
  shows "marginal (real_frame i c M) 0 =
     Inr (zip c (map (\<lambda>j. Fin (sum_list (map (\<lambda>r. r ! j) M))) [0..<length c]))"
proof -
  have "nansum (column_at (real_frame i c M) j) = Fin (sum_list (map (\<lambda>r. r ! j) M))"
    if "j < length c" for j
  proof -
    from assms that have "list_all (\<lambda>r. j < length r) M"
      by (simp add: list_all_iff)
    then show ?thesis
      by (simp only: column_at_real_frame nansum_Fin)
  qed
  then have eq: "map (\<lambda>j. nansum (column_at (real_frame i c M) j)) [0..<length c]
      = map (\<lambda>j. Fin (sum_list (map (\<lambda>r. r ! j) M))) [0..<length c]"
    by simp
  have cols: "df_columns (real_frame i c M) = c"
    by (simp add: real_frame_def)
  show ?thesis
    unfolding marginal_def df_sum_def Pmf_def cols eq by simp
qed

lemma sum_list_nth: "sum_list (map (\<lambda>j. r ! j) [0..<length r]) = sum_list (r :: real list)"
  by (simp add: map_nth)

lemma sum_columns:
  assumes "list_all (\<lambda>r. length r = m) M"
  shows "sum_list (map (\<lambda>j. sum_list (map (\<lambda>r. r ! j) M)) [0..<m]) = cells_sum M"
  using assms
proof (induction M)
  case Nil
  then show ?case by (simp add: cells_sum_def)
next
  case (Cons r M)
  then have len: "length r = m" and rest: "list_all (\<lambda>r. length r = m) M"
    by simp_all
  have "sum_list (map (\<lambda>j. sum_list (map (\<lambda>r. r ! j) (r # M))) [0..<m])
      = sum_list (map (\<lambda>j. r ! j) [0..<m]) + sum_list (map (\<lambda>j. sum_list (map (\<lambda>r. r ! j) M)) [0..<m])"
    by (simp add: sum_list_addf)
  also have "\<dots> = sum_list r + cells_sum M"
    using Cons.IH [OF rest] sum_list_nth [of r] len by simp
  finally show ?case by (simp add: cells_sum_def)
qed

lemma cells_sum_rows: "cells_sum M = sum_list (map sum_list M)"
  unfolding cells_sum_def by (induction M) simp_all

lemma ps_zip: "length xs = length ys \<Longrightarrow> ps (zip xs ys) = ys"
  by (simp add: ps_def)

lemma qs_zip: "length xs = length ys \<Longrightarrow> qs (zip xs ys) = xs"
  by (simp add: qs_def)

text \<open>
  Claim C10. For a joint table with real cells, the marginal along either axis is a
  distribution over the labels of the other axis whose total weight is the sum of all
  cells of the table. So both marginals of a normalized table have total weight 1.
\<close>

theorem marginal_total:
  assumes shape: "rect (length i) (length c) M"
  shows "\<exists>s0 s1. marginal (real_frame i c M) 0 = Inr s0 \<and> marginal (real_frame i c M) 1 = Inr s1
     \<and> qs s0 = c \<and> qs s1 = i
     \<and> nansum (ps s0) = np_sum (to_numpy (real_frame i c M))
     \<and> nansum (ps s1) = np_sum (to_numpy (real_frame i c M))
     \<and> (np_sum (to_numpy (real_frame i c M)) = Fin 1 \<longrightarrow>
          nansum (ps s0) = Fin 1 \<and> nansum (ps s1) = Fin 1)"
proof -
  let ?s0 = "zip c (map (\<lambda>j. Fin (sum_list (map (\<lambda>r. r ! j) M))) [0..<length c])"
  let ?s1 = "zip i (map (\<lambda>r. Fin (sum_list r)) M)"
  from shape have rows: "length M = length i" and cols: "list_all (\<lambda>r. length r = length c) M"
    by (simp_all add: rect_def)
  have all: "np_sum (to_numpy (real_frame i c M)) = Fin (cells_sum M)"
    by (simp only: to_numpy_real_frame np_sum_Fin cells_sum_def)
  have m0: "marginal (real_frame i c M) 0 = Inr ?s0"
    using cols by (rule marginal_columns)
  have m1: "marginal (real_frame i c M) 1 = Inr ?s1"
    by (rule marginal_rows)
  have q0: "qs ?s0 = c" by (simp add: qs_zip)
  have q1: "qs ?s1 = i" using rows by (simp add: qs_zip)
  have "ps ?s0 = map Fin (map (\<lambda>j. sum_list (map (\<lambda>r. r ! j) M)) [0..<length c])"
    by (simp add: ps_zip comp_def)
  then have t0: "nansum (ps ?s0) = Fin (cells_sum M)"
    using sum_columns [OF cols] by (simp only: nansum_Fin)
  have "ps ?s1 = map Fin (map sum_list M)"
    using rows by (simp add: ps_zip comp_def)
  then have t1: "nansum (ps ?s1) = Fin (cells_sum M)"
    by (simp only: nansum_Fin cells_sum_rows)
  show ?thesis
    apply (rule exI [of _ ?s0], rule exI [of _ ?s1])
    using m0 m1 q0 q1 t0 t1 all by simp
qed

theorem marginal_total_witness:
  "\<exists>s0 s1. marginal (real_frame [1, 2] [1, 2, 3] [[0, 1/4, 1/4], [0, 0, 1/2]]) 0 = Inr s0
     \<and> marginal (real_frame [1, 2] [1, 2, 3] [[0, 1/4, 1/4], [0, 0, 1/2]]) 1 = Inr s1
     \<and> nansum (ps s0) = Fin 1 \<and> nansum (ps s1) = Fin 1"
proof -
  let ?M = "[[0, 1/4, 1/4], [0, 0, 1/2 :: real]]"
  have shape: "rect (length [1, 2 :: real]) (length [1, 2, 3 :: real]) ?M"
    by (simp add: rect_def)
  have one: "np_sum (to_numpy (real_frame [1, 2] [1, 2, 3] ?M)) = Fin 1"
    by (simp add: to_numpy_def real_frame_def)
  from marginal_total [OF shape] one show ?thesis
    by metis
qed


section \<open>The round trip\<close>

lemma real_pmf_zip: "zip (map fst d) (map Fin (map snd d)) = real_pmf d"
  by (induction d) (simp_all add: real_pmf_def case_prod_unfold)

lemma map_Fin_nth: "map (\<lambda>j. Fin (u ! j)) [0..<length u] = map Fin u"
  by (rule nth_equalityI) simp_all

lemma outer_row_sums:
  "map (\<lambda>r. Fin (sum_list r)) (outer u v) = map Fin (map (\<lambda>b. sum_list u * b) v)"
  by (simp add: outer_def comp_def sum_list_mult_const)

lemma outer_column_sums:
  assumes "j < length u"
  shows "sum_list (map (\<lambda>r. r ! j) (outer u v)) = u ! j * sum_list v"
  using assms by (simp add: outer_def comp_def sum_list_const_mult)

text \<open>
  Claim C3. For two normalized distributions with real weights, the marginal of their
  joint table along axis 1 (each row added up, that is, the first variable summed out)
  is the second distribution, and the marginal along axis 0 (each column added up, the
  second variable summed out) is the first distribution. (Exact arithmetic: in
  floating point the two agree up to rounding.)
\<close>

theorem marginal_round_trip:
  fixes d1 d2 :: "(real \<times> real) list"
  assumes n1: "sum_list (map snd d1) = 1" and n2: "sum_list (map snd d2) = 1"
  shows "\<exists>J. make_joint h (real_pmf d1) (real_pmf d2) = Inr (alloc h J)
     \<and> marginal J 1 = Inr (real_pmf d2)
     \<and> marginal J 0 = Inr (real_pmf d1)"
proof -
  let ?u = "map snd d1" and ?v = "map snd d2"
  let ?J = "real_frame (map fst d2) (map fst d1) (outer ?u ?v)"
  have run: "make_joint h (real_pmf d1) (real_pmf d2) = Inr (alloc h ?J)"
    by (rule make_joint_real)
  have "map (\<lambda>r. Fin (sum_list r)) (outer ?u ?v) = map Fin ?v"
    using n1 by (simp only: outer_row_sums) simp
  then have rows: "marginal ?J 1 = Inr (real_pmf d2)"
    by (simp only: marginal_rows real_pmf_zip)
  have shape: "list_all (\<lambda>r. length r = length (map fst d1)) (outer ?u ?v)"
    by (simp add: outer_def list_all_iff)
  have "map (\<lambda>j. Fin (sum_list (map (\<lambda>r. r ! j) (outer ?u ?v)))) [0..<length (map fst d1)]
      = map (\<lambda>j. Fin (?u ! j)) [0..<length ?u]"
    using n2 by (simp add: outer_column_sums)
  also have "\<dots> = map Fin ?u"
    by (rule map_Fin_nth)
  finally have cols: "marginal ?J 0 = Inr (real_pmf d1)"
    by (simp only: marginal_columns [OF shape] real_pmf_zip)
  from run rows cols show ?thesis by blast
qed

theorem marginal_round_trip_witness:
  "\<exists>J. make_joint empty_heap (real_pmf small_prior) (real_pmf [(4, 1/2), (5, 1/2)]) = Inr (alloc empty_heap J)
     \<and> marginal J 1 = Inr (real_pmf [(4, 1/2), (5, 1/2)])
     \<and> marginal J 0 = Inr (real_pmf small_prior)"
proof -
  have n1: "sum_list (map snd small_prior) = 1" by (simp add: small_prior_def)
  have n2: "sum_list (map snd [(4, 1/2), (5, 1/2 :: real)]) = (1 :: real)" by simp
  from n1 n2 show ?thesis by (rule marginal_round_trip)
qed

section \<open>The axes of the likelihood\<close>

text \<open>
  Claim C4. The notebook builds the likelihood with \<open>index=x, columns=y\<close>, where
  \<open>x\<close> are the columns of the joint table and \<open>y\<close> its index: the first sequence
  labels the rows of the likelihood and the second its columns, the other way round
  from \<open>make_joint\<close>. On the sequences \<open>[1, 3, 5]\<close> and \<open>[2, 4]\<close> of the notebook's
  own outer-product example the array has shape (2, 3) against labels for shape (3, 2),
  and the constructor raises \<open>ValueError\<close>; on \<open>[1, 5]\<close> and \<open>[2, 4]\<close> the rows
  are labelled 1, 5 and the columns 2, 4, while the joint table of the same two
  sequences has columns 1, 5 and rows 2, 4.
\<close>

theorem likelihood_axes_swapped:
  "likelihood_of [1, 3, 5] [2, 4] = Inl ValueError
   \<and> likelihood_of [1, 5] [2, 4] =
       Inr \<lparr>df_index = [1, 5], df_columns = [2, 4], df_data = [[Fin 0, Fin 1], [Fin 0, Fin 1]]\<rparr>
   \<and> make_joint empty_heap (real_pmf [(1, 1/2), (5, 1/2)]) (real_pmf [(2, 1/2), (4, 1/2)]) =
       Inr (alloc empty_heap \<lparr>df_index = [2, 4], df_columns = [1, 5],
              df_data = [[Fin (1/4), Fin (1/4)], [Fin (1/4), Fin (1/4)]]\<rparr>)"
proof -
  have a: "likelihood_of [1, 3, 5] [2, 4] = Inl ValueError"
    by (simp add: likelihood_of_def meshgrid_def elementwise_def np_where_def DataFrame_def)
  have b: "likelihood_of [1, 5] [2, 4] =
       Inr \<lparr>df_index = [1, 5], df_columns = [2, 4], df_data = [[Fin 0, Fin 1], [Fin 0, Fin 1]]\<rparr>"
    by (simp add: likelihood_of_def meshgrid_def elementwise_def np_where_def DataFrame_def)
  have c: "make_joint empty_heap (real_pmf [(1, 1/2), (5, 1/2)]) (real_pmf [(2, 1/2), (4, 1/2)]) =
       Inr (alloc empty_heap \<lparr>df_index = [2, 4], df_columns = [1, 5],
              df_data = [[Fin (1/4), Fin (1/4)], [Fin (1/4), Fin (1/4)]]\<rparr>)"
    by (simp add: make_joint_real real_frame_def outer_def)
  from a b c show ?thesis by blast
qed

section \<open>Zero evidence\<close>

lemma fdiv_zero: "fdiv (Fin x) (Fin 0) = div_by_zero x"
  by (simp add: div_by_zero_def)

lemma map2_nonneg:
  "list_all (\<lambda>x. 0 \<le> x) a \<Longrightarrow> list_all (\<lambda>x. 0 \<le> x) b \<Longrightarrow> list_all (\<lambda>x. 0 \<le> (x::real)) (map2 (*) a b)"
  by (induction a arbitrary: b) (simp, case_tac b, simp_all)

lemma times_cells_nonneg: "nonneg A \<Longrightarrow> nonneg B \<Longrightarrow> nonneg (times_cells A B)"
  unfolding nonneg_def times_cells_def
  by (induction A arbitrary: B) (simp, case_tac B, simp_all add: map2_nonneg)

lemma nonneg_total_zero:
  assumes "nonneg M" and "cells_sum M = 0"
  shows "map (map div_by_zero) M = map (map (\<lambda>_. NaN)) M"
proof -
  from assms(1) have nn: "\<And>x. x \<in> set (concat M) \<Longrightarrow> 0 \<le> x"
    by (auto simp: nonneg_def list_all_iff)
  from assms(2) have "sum_list (concat M) = 0"
    by (simp add: cells_sum_def)
  with sum_list_nonneg_eq_0_iff [of "concat M"] nn have "\<forall>x\<in>set (concat M). x = 0"
    by blast
  then have "\<forall>r\<in>set M. \<forall>x\<in>set r. div_by_zero x = NaN"
    by (auto simp: div_by_zero_def)
  then show ?thesis by simp
qed

text \<open>
  Claim C5, as the code has it. The update never fails. When the joint prior and the
  likelihood carry the same labels and the products of their (real) cells add up to
  zero, it returns 0 as the probability of the data and a posterior whose cells are the
  products divided by zero: \<open>nan\<close> for a product that is zero, a signed infinity for
  any other. When all weights and likelihoods are non-negative, every cell of the
  posterior is \<open>nan\<close>.
\<close>

theorem update_zero_evidence:
  assumes J: "store h j = real_frame i c A" and L: "store h l = real_frame i c B"
    and zero: "cells_sum (times_cells A B) = 0"
  shows "\<exists>h'. update h j l = ((next_ref h, Fin 0), h')
     \<and> df_index (store h' (next_ref h)) = i \<and> df_columns (store h' (next_ref h)) = c
     \<and> df_data (store h' (next_ref h)) = map (map div_by_zero) (times_cells A B)
     \<and> (nonneg A \<and> nonneg B \<longrightarrow>
          df_data (store h' (next_ref h)) = map (map (\<lambda>_. NaN)) (times_cells A B))"
proof -
  let ?P = "times_cells A B"
  let ?post = "df_div (real_frame i c ?P) (Fin 0)"
  let ?h' = "\<lparr>store = (store h)(next_ref h := ?post), next_ref = Suc (next_ref h)\<rparr>"
  have run: "update h j l = ((next_ref h, Fin 0), ?h')"
    using update_real_frames [OF J L] by (simp only: zero)
  have labels: "df_index ?post = i \<and> df_columns ?post = c"
    by (simp add: df_div_def real_frame_def)
  have cells: "df_data ?post = map (map div_by_zero) ?P"
    by (simp add: df_div_def real_frame_def comp_def div_by_zero_def)
  have nan: "df_data ?post = map (map (\<lambda>_. NaN)) ?P" if "nonneg A \<and> nonneg B"
    using that zero by (simp only: cells nonneg_total_zero times_cells_nonneg)
  have post: "store ?h' (next_ref h) = ?post" by simp
  show ?thesis
    apply (rule exI [of _ ?h'])
    apply (simp only: post)
    using run labels cells nan by blast
qed

theorem update_zero_evidence_witness:
  "\<exists>h'. update (heap_of [real_frame [1, 2] [1, 2] [[1/4, 1/4], [1/4, 1/4]],
                             real_frame [1, 2] [1, 2] [[0, 0], [0, 0]]]) 0 1
          = ((2, Fin 0), h')
      \<and> df_data (store h' 2) = [[NaN, NaN], [NaN, NaN]]"
proof -
  let ?A = "[[1/4, 1/4], [1/4, 1/4 :: real]]" and ?B = "[[0, 0], [0, 0 :: real]]"
  let ?h = "heap_of [real_frame [1, 2] [1, 2] ?A, real_frame [1, 2] [1, 2] ?B]"
  have J: "store ?h 0 = real_frame [1, 2] [1, 2] ?A" by (simp add: heap_of_def)
  have L: "store ?h 1 = real_frame [1, 2] [1, 2] ?B" by (simp add: heap_of_def)
  have n: "next_ref ?h = 2" by (simp add: heap_of_def)
  have P: "times_cells ?A ?B = [[0, 0], [0, 0]]" by (simp add: times_cells_def)
  have S: "cells_sum (times_cells ?A ?B) = 0" by (simp add: P cells_sum_def)
  have nn: "nonneg ?A \<and> nonneg ?B" by (simp add: nonneg_def)
  from update_zero_evidence [OF J L S] nn show ?thesis
    unfolding n P by simp blast
qed

text \<open>
  The same update evaluated: a normalized joint prior against a likelihood that is zero
  everywhere gives the probability 0 and a posterior of \<open>nan\<close> cells; nothing is
  raised.
\<close>

theorem zero_evidence_counterexample:
  "fst (update (heap_of [real_frame [1, 2] [1, 2] [[1/4, 1/4], [1/4, 1/4]],
                         real_frame [1, 2] [1, 2] [[0, 0], [0, 0]]]) 0 1) = (2, Fin 0)
   \<and> store (snd (update (heap_of [real_frame [1, 2] [1, 2] [[1/4, 1/4], [1/4, 1/4]],
                                  real_frame [1, 2] [1, 2] [[0, 0], [0, 0]]]) 0 1)) 2
       = \<lparr>df_index = [1, 2], df_columns = [1, 2], df_data = [[NaN, NaN], [NaN, NaN]]\<rparr>"
  by (simp add: update_eq heap_of_def df_mul_def indexed_same_def real_frame_def elementwise_def
      to_numpy_def df_div_def)

section \<open>New tables and tables changed in place\<close>

lemma alloc_frame:
  "alloc h df = (r, h') \<Longrightarrow>
     r = next_ref h \<and> next_ref h' = Suc (next_ref h) \<and> store h' r = df
     \<and> (\<forall>r'. r' \<noteq> r \<longrightarrow> store h' r' = store h r')"
  by (auto simp: alloc_def)

text \<open>
  Claim C9, as the code has it. \<open>make_joint\<close> and the product \<open>joint * likelihood\<close>
  return a new table and leave every existing table unchanged, and so does the update
  as a whole, which normalizes only the product it has just made. \<open>normalize\<close> itself
  works in place: it returns the sum alone, makes no new table, and replaces the cells
  of the table it was given by their quotients by the sum, so that every reference to
  that table sees the normalized cells; all other tables are unchanged.
\<close>

theorem tables_new_or_in_place:
  "(make_joint h pmf1 pmf2 = Inr (r, h1) \<longrightarrow>
      r = next_ref h \<and> (\<forall>r'. r' \<noteq> r \<longrightarrow> store h1 r' = store h r'))
   \<and> (mul h a b = (p, h2) \<longrightarrow>
      p = next_ref h \<and> (\<forall>r'. r' \<noteq> p \<longrightarrow> store h2 r' = store h r'))
   \<and> (update h a b = ((q, e), h3) \<longrightarrow>
      q = next_ref h \<and> (\<forall>r'. r' \<noteq> q \<longrightarrow> store h3 r' = store h r'))
   \<and> (normalize_df h t = (s, h4) \<longrightarrow>
      s = np_sum (to_numpy (store h t)) \<and> next_ref h4 = next_ref h
      \<and> store h4 t = df_div (store h t) s
      \<and> (\<forall>r'. r' \<noteq> t \<longrightarrow> store h4 r' = store h r'))"
proof -
  have build: "r = next_ref h \<and> (\<forall>r'. r' \<noteq> r \<longrightarrow> store h1 r' = store h r')"
    if "make_joint h pmf1 pmf2 = Inr (r, h1)"
  proof -
    from that obtain df where "alloc h df = (r, h1)"
      by (auto simp: make_joint_def Let_def case_prod_unfold split: sum.splits)
    then show ?thesis by (auto dest: alloc_frame)
  qed
  have product: "p = next_ref h \<and> (\<forall>r'. r' \<noteq> p \<longrightarrow> store h2 r' = store h r')"
    if "mul h a b = (p, h2)"
    using that unfolding mul_def by (auto dest: alloc_frame)
  have upd: "q = next_ref h \<and> (\<forall>r'. r' \<noteq> q \<longrightarrow> store h3 r' = store h r')"
    if "update h a b = ((q, e), h3)"
    using that by (auto simp: update_eq)
  have norm: "s = np_sum (to_numpy (store h t)) \<and> next_ref h4 = next_ref h
      \<and> store h4 t = df_div (store h t) s
      \<and> (\<forall>r'. r' \<noteq> t \<longrightarrow> store h4 r' = store h r')"
    if "normalize_df h t = (s, h4)"
    using that by (auto simp: normalize_df_def Let_def)
  from build product upd norm show ?thesis by blast
qed

theorem tables_new_or_in_place_witness:
  "(\<exists>h1. make_joint (heap_of [real_frame [1] [1, 2] [[1, 1]], real_frame [1] [1, 2] [[1, 0]]])
             (real_pmf [(1, 1)]) (real_pmf [(1, 1)]) = Inr (2, h1)
          \<and> store h1 0 = real_frame [1] [1, 2] [[1, 1]])
   \<and> fst (mul (heap_of [real_frame [1] [1, 2] [[1, 1]], real_frame [1] [1, 2] [[1, 0]]]) 0 1) = 2
   \<and> store (snd (update (heap_of [real_frame [1] [1, 2] [[1, 1]], real_frame [1] [1, 2] [[1, 0]]]) 0 1)) 0
       = real_frame [1] [1, 2] [[1, 1]]
   \<and> store (snd (normalize_df (heap_of [real_frame [1] [1, 2] [[1, 1]], real_frame [1] [1, 2] [[1, 0]]]) 0)) 0
       = df_div (real_frame [1] [1, 2] [[1, 1]]) (Fin 2)
   \<and> store (snd (normalize_df (heap_of [real_frame [1] [1, 2] [[1, 1]], real_frame [1] [1, 2] [[1, 0]]]) 0)) 1
       = real_frame [1] [1, 2] [[1, 0]]"
proof -
  let ?H = "heap_of [real_frame [1] [1, 2] [[1, 1]], real_frame [1] [1, 2] [[1, 0]]]"
  let ?p = "real_pmf [(1, 1)]"
  let ?h1 = "snd (alloc ?H (real_frame (map fst [(1, 1 :: real)]) (map fst [(1 :: real, 1 :: real)])
      (outer (map snd [(1 :: real, 1)]) (map snd [(1 :: real, 1)]))))"
  have n: "next_ref ?H = 2" and s0: "store ?H 0 = real_frame [1] [1, 2] [[1, 1]]"
    and s1: "store ?H 1 = real_frame [1] [1, 2] [[1, 0]]"
    by (simp_all add: heap_of_def)
  have sum: "np_sum (to_numpy (real_frame [1] [1, 2] [[1, 1]])) = Fin 2"
    by (simp add: to_numpy_def real_frame_def)
  have j: "make_joint ?H ?p ?p = Inr (2, ?h1)"
    by (simp only: make_joint_real) (simp add: alloc_def n)
  have m: "mul ?H 0 1 = (fst (mul ?H 0 1), snd (mul ?H 0 1))" by simp
  have u: "update ?H 0 1 = ((fst (fst (update ?H 0 1)), snd (fst (update ?H 0 1))), snd (update ?H 0 1))"
    by simp
  have z: "normalize_df ?H 0 = (fst (normalize_df ?H 0), snd (normalize_df ?H 0))" by simp
  note t = tables_new_or_in_place [of ?H ?p ?p 2 ?h1 0 1 "fst (mul ?H 0 1)" "snd (mul ?H 0 1)"
      "fst (fst (update ?H 0 1))" "snd (fst (update ?H 0 1))" "snd (update ?H 0 1)"
      0 "fst (normalize_df ?H 0)" "snd (normalize_df ?H 0)"]
  from t j have "\<forall>r'. r' \<noteq> 2 \<longrightarrow> store ?h1 r' = store ?H r'"
    by blast
  then have "store ?h1 0 = real_frame [1] [1, 2] [[1, 1]]"
    using s0 by simp
  with j have k: "\<exists>h1. make_joint ?H ?p ?p = Inr (2, h1) \<and> store h1 0 = real_frame [1] [1, 2] [[1, 1]]"
    by blast
  from t m have a: "fst (mul ?H 0 1) = 2" using n by metis
  from t u have "fst (fst (update ?H 0 1)) = 2
      \<and> (\<forall>r'. r' \<noteq> fst (fst (update ?H 0 1)) \<longrightarrow> store (snd (update ?H 0 1)) r' = store ?H r')"
    using n by metis
  then have b: "store (snd (update ?H 0 1)) 0 = real_frame [1] [1, 2] [[1, 1]]"
    using s0 by simp
  from t z have c: "fst (normalize_df ?H 0) = np_sum (to_numpy (store ?H 0))
      \<and> store (snd (normalize_df ?H 0)) 0 = df_div (store ?H 0) (fst (normalize_df ?H 0))
      \<and> (\<forall>r'. r' \<noteq> 0 \<longrightarrow> store (snd (normalize_df ?H 0)) r' = store ?H r')"
    by metis
  then have d: "store (snd (normalize_df ?H 0)) 0 = df_div (real_frame [1] [1, 2] [[1, 1]]) (Fin 2)"
    using s0 sum by simp
  from c have e: "store (snd (normalize_df ?H 0)) 1 = real_frame [1] [1, 2] [[1, 0]]"
    using s1 by simp
  from k a b d e show ?thesis by blast
qed

text \<open>
  A table normalized through one reference: the object at that reference now holds the
  halved cells, and no new table was made.
\<close>

theorem normalize_mutates_counterexample:
  "store (heap_of [real_frame [1] [1, 2] [[1, 1]]]) 0 = real_frame [1] [1, 2] [[1, 1]]
   \<and> normalize_df (heap_of [real_frame [1] [1, 2] [[1, 1]]]) 0 =
       (Fin 2, \<lparr>store = (store (heap_of [real_frame [1] [1, 2] [[1, 1]]]))
                  (0 := real_frame [1] [1, 2] [[1/2, 1/2]]), next_ref = 1\<rparr>)
   \<and> store (snd (normalize_df (heap_of [real_frame [1] [1, 2] [[1, 1]]]) 0)) 0
       \<noteq> store (heap_of [real_frame [1] [1, 2] [[1, 1]]]) 0"
  by (simp add: normalize_df_def heap_of_def to_numpy_def real_frame_def df_div_def Let_def)

section \<open>Frames with different labels\<close>

lemma set_join_labels: "set (join_labels xs ys) = set xs \<union> set ys"
  by (auto simp: join_labels_def)

lemma cell_no_row: "r \<notin> set (df_index df) \<Longrightarrow> cell df r k = None"
proof -
  assume "r \<notin> set (df_index df)"
  then have "r \<notin> fst ` set (zip (df_index df) (df_data df))"
    by (auto dest: set_zip_leftD)
  then have "map_of (zip (df_index df) (df_data df)) r = None"
    by (simp add: map_of_eq_None_iff)
  then show ?thesis by (simp add: cell_def)
qed

lemma cell_no_column: "k \<notin> set (df_columns df) \<Longrightarrow> cell df r k = None"
proof -
  assume k: "k \<notin> set (df_columns df)"
  have "map_of (zip (df_columns df) row) k = None" for row :: "npfloat list"
  proof -
    from k have "k \<notin> fst ` set (zip (df_columns df) row)"
      by (auto dest: set_zip_leftD)
    then show ?thesis by (simp add: map_of_eq_None_iff)
  qed
  then show ?thesis by (simp add: cell_def split: option.splits)
qed

lemma fadd_NaN_right: "fadd x NaN = NaN"
  by (cases x) simp_all

lemma fdiv_NaN_right: "fdiv x NaN = NaN"
  by (cases x) simp_all

lemma np_sum_NaN: "NaN \<in> set xs \<Longrightarrow> np_sum xs = NaN"
  by (induction xs) (auto simp: fadd_NaN_right)

lemma df_div_NaN: "all_nan (df_div df NaN)"
  by (simp add: all_nan_def df_div_def list_all_iff fdiv_NaN_right)

lemma df_mul_misaligned:
  assumes differ: "set (df_index a) \<noteq> set (df_index b) \<or> set (df_columns a) \<noteq> set (df_columns b)"
    and rows: "df_index a \<noteq> []" and cols: "df_columns a \<noteq> []"
  shows "NaN \<in> set (to_numpy (df_mul a b))"
proof -
  let ?i = "join_labels (df_index a) (df_index b)"
  let ?c = "join_labels (df_columns a) (df_columns b)"
  let ?g = "\<lambda>r k. (case (cell a r k, cell b r k) of (Some u, Some v) \<Rightarrow> fmul u v | _ \<Rightarrow> NaN)"
  from differ have "\<not> indexed_same a b"
    by (auto simp: indexed_same_def)
  then have data: "to_numpy (df_mul a b) = concat (map (\<lambda>r. map (?g r) ?c) ?i)"
    by (simp add: df_mul_def to_numpy_def Let_def)
  from rows obtain r0 where r0: "r0 \<in> set ?i"
    by (cases "df_index a") (auto simp: set_join_labels)
  from cols obtain k0 where k0: "k0 \<in> set ?c"
    by (cases "df_columns a") (auto simp: set_join_labels)
  from differ have "\<exists>r\<in>set ?i. \<exists>k\<in>set ?c. ?g r k = NaN"
  proof
    assume "set (df_index a) \<noteq> set (df_index b)"
    then obtain r where r: "r \<in> set ?i" and miss: "r \<notin> set (df_index a) \<or> r \<notin> set (df_index b)"
      by (auto simp: set_join_labels)
    from miss have "cell a r k0 = None \<or> cell b r k0 = None"
      by (auto simp: cell_no_row)
    then have "?g r k0 = NaN"
      by (auto split: option.splits)
    with r k0 show ?thesis by blast
  next
    assume "set (df_columns a) \<noteq> set (df_columns b)"
    then obtain k where k: "k \<in> set ?c" and miss: "k \<notin> set (df_columns a) \<or> k \<notin> set (df_columns b)"
      by (auto simp: set_join_labels)
    from miss have "cell a r0 k = None \<or> cell b r0 k = None"
      by (auto simp: cell_no_column)
    then have "?g r0 k = NaN"
      by (auto split: option.splits)
    with r0 k show ?thesis by blast
  qed
  then obtain r k where "r \<in> set ?i" "k \<in> set ?c" "?g r k = NaN"
    by blast
  then have "NaN \<in> set (concat (map (\<lambda>r. map (?g r) ?c) ?i))"
    by (force simp: image_iff)
  with data show ?thesis by simp
qed

lemma df_mul_labels:
  "set (df_index (df_mul a b)) = set (df_index a) \<union> set (df_index b)
   \<and> set (df_columns (df_mul a b)) = set (df_columns a) \<union> set (df_columns b)"
  by (auto simp: df_mul_def indexed_same_def Let_def set_join_labels)


text \<open>
  Claim C6, as the code has it. The update never fails on frames whose labels differ:
  pandas aligns the two frames by label. For labels without duplicates and a joint prior
  that is not empty, when the likelihood's row labels or column labels differ as sets
  from the joint prior's, the posterior is labelled on each axis by the union of the two
  frames' labels, the probability of the data returned is \<open>nan\<close>, and every cell of the
  posterior is \<open>nan\<close>.
\<close>

theorem update_misaligned:
  assumes differ: "set (df_index (store h j)) \<noteq> set (df_index (store h l))
      \<or> set (df_columns (store h j)) \<noteq> set (df_columns (store h l))"
    and rows: "df_index (store h j) \<noteq> []" and cols: "df_columns (store h j) \<noteq> []"
    and no_duplicates: "distinct (df_index (store h j))" "distinct (df_columns (store h j))"
      "distinct (df_index (store h l))" "distinct (df_columns (store h l))"
  shows "\<exists>h'. update h j l = ((next_ref h, NaN), h')
     \<and> set (df_index (store h' (next_ref h))) = set (df_index (store h j)) \<union> set (df_index (store h l))
     \<and> set (df_columns (store h' (next_ref h))) = set (df_columns (store h j)) \<union> set (df_columns (store h l))
     \<and> all_nan (store h' (next_ref h))"
proof -
  let ?P = "df_mul (store h j) (store h l)"
  let ?h' = "\<lparr>store = (store h)(next_ref h := df_div ?P NaN), next_ref = Suc (next_ref h)\<rparr>"
  have "NaN \<in> set (to_numpy ?P)"
    using differ rows cols by (rule df_mul_misaligned)
  then have ev: "np_sum (to_numpy ?P) = NaN"
    by (rule np_sum_NaN)
  have run: "update h j l = ((next_ref h, NaN), ?h')"
    by (simp only: update_eq ev)
  have post: "store ?h' (next_ref h) = df_div ?P NaN" by simp
  have labels: "df_index (df_div ?P NaN) = df_index ?P \<and> df_columns (df_div ?P NaN) = df_columns ?P"
    by (simp add: df_div_def)
  show ?thesis
    apply (rule exI [of _ ?h'])
    apply (simp only: post)
    using run labels df_mul_labels [of "store h j" "store h l"] df_div_NaN [of ?P] by simp
qed

theorem update_misaligned_witness:
  "\<exists>h'. update (heap_of [real_frame [1, 2] [1, 2] [[1/4, 1/4], [1/4, 1/4]],
                             real_frame [1, 3] [1, 3] [[0, 1], [0, 0]]]) 0 1
          = ((2, NaN), h')
      \<and> set (df_index (store h' 2)) = {1, 2, 3}
      \<and> all_nan (store h' 2)"
proof -
  let ?H = "heap_of [real_frame [1, 2] [1, 2] [[1/4, 1/4], [1/4, 1/4]],
                     real_frame [1, 3] [1, 3] [[0, 1], [0, 0]]]"
  have j: "store ?H 0 = real_frame [1, 2] [1, 2] [[1/4, 1/4], [1/4, 1/4]]"
    and l: "store ?H 1 = real_frame [1, 3] [1, 3] [[0, 1], [0, 0]]"
    and n: "next_ref ?H = 2"
    by (simp_all add: heap_of_def)
  have differ: "set (df_index (store ?H 0)) \<noteq> set (df_index (store ?H 1))
      \<or> set (df_columns (store ?H 0)) \<noteq> set (df_columns (store ?H 1))"
  proof -
    have "(2::real) \<in> set [1, 2]" and "(2::real) \<notin> set [1, 3]"
      by simp_all
    then have "set [1, 2 :: real] \<noteq> set [1, 3]"
      by blast
    then show ?thesis
      unfolding j l by (simp add: real_frame_def)
  qed
  have rows: "df_index (store ?H 0) \<noteq> []" and cols: "df_columns (store ?H 0) \<noteq> []"
    unfolding j by (simp_all add: real_frame_def)
  have d: "distinct (df_index (store ?H 0))" "distinct (df_columns (store ?H 0))"
      "distinct (df_index (store ?H 1))" "distinct (df_columns (store ?H 1))"
    unfolding j l by (simp_all add: real_frame_def)
  have u: "set (df_index (store ?H 0)) \<union> set (df_index (store ?H 1)) = {1, 2, 3}"
    unfolding j l by (auto simp: real_frame_def)
  from update_misaligned [OF differ rows cols d] show ?thesis
    unfolding n u by blast
qed

text \<open>
  The same update evaluated on a likelihood over the grid 1, 3 against a joint prior
  over the grid 1, 2: a posterior over 1, 2, 3 comes back, all \<open>nan\<close>; nothing is
  raised.
\<close>

theorem shape_mismatch_counterexample:
  "fst (update (heap_of [real_frame [1, 2] [1, 2] [[1/4, 1/4], [1/4, 1/4]],
                         real_frame [1, 3] [1, 3] [[0, 1], [0, 0]]]) 0 1) = (2, NaN)
   \<and> store (snd (update (heap_of [real_frame [1, 2] [1, 2] [[1/4, 1/4], [1/4, 1/4]],
                                  real_frame [1, 3] [1, 3] [[0, 1], [0, 0]]]) 0 1)) 2
       = \<lparr>df_index = [1, 2, 3], df_columns = [1, 2, 3],
          df_data = [[NaN, NaN, NaN], [NaN, NaN, NaN], [NaN, NaN, NaN]]\<rparr>"
proof -
  let ?a = "real_frame [1, 2] [1, 2] [[1/4, 1/4], [1/4, 1/4]]"
  let ?b = "real_frame [1, 3] [1, 3] [[0, 1], [0, 0]]"
  have join: "join_labels [1, 2] [1, 3] = [1, 2, 3 :: real]"
    by (simp add: join_labels_def)
  have prod: "df_mul ?a ?b = \<lparr>df_index = [1, 2, 3], df_columns = [1, 2, 3],
          df_data = [[Fin 0, NaN, NaN], [NaN, NaN, NaN], [NaN, NaN, NaN]]\<rparr>"
    by (simp add: df_mul_def indexed_same_def real_frame_def join cell_def Let_def)
  have ev: "np_sum (to_numpy (df_mul ?a ?b)) = NaN"
    by (simp add: prod to_numpy_def)
  have s: "store (heap_of [?a, ?b]) 0 = ?a" "store (heap_of [?a, ?b]) 1 = ?b"
    "next_ref (heap_of [?a, ?b]) = 2"
    by (simp_all add: heap_of_def)
  show ?thesis
    unfolding update_eq s ev by (simp add: prod df_div_def)
qed

section \<open>The posterior of the comparison\<close>

lemma elementwise_meshgrid:
  "elementwise f (fst (meshgrid x y)) (snd (meshgrid x y)) = map (\<lambda>v. map (\<lambda>u. f u v) x) y"
proof -
  have row: "map2 f x (map (\<lambda>_. v) x) = map (\<lambda>u. f u v) x" for v
    using map2_same [of f "\<lambda>u. u" x "\<lambda>_. v"] by simp
  have "map2 (map2 f) (map (\<lambda>_. x) y) (map (\<lambda>v. map (\<lambda>_. v) x) y)
      = map (\<lambda>v. map2 f x (map (\<lambda>_. v) x)) y"
    by (rule map2_same)
  then show ?thesis
    by (simp only: meshgrid_def elementwise_def fst_conv snd_conv row)
qed

lemma likelihood_of_real: "likelihood_of g g = Inr (real_frame g g (taller g g))"
proof -
  have "np_where (map (\<lambda>v. map (\<lambda>u. v < u) g) g) (Fin 1) (Fin 0) = map (map Fin) (taller g g)"
    by (simp add: np_where_def taller_def comp_def if_distrib)
  moreover have "DataFrame (map (map Fin) (taller g g)) g g = Inr (real_frame g g (taller g g))"
    by (simp add: DataFrame_def real_frame_def taller_def list_all_iff)
  ultimately show ?thesis
    using elementwise_meshgrid [of "\<lambda>u v. v < u" g g]
    by (simp add: likelihood_of_def case_prod_unfold Let_def)
qed

lemma times_cells_maps:
  "times_cells (map (\<lambda>q. map (g q) xs) ys) (map (\<lambda>q. map (k q) xs) ys)
     = map (\<lambda>q. map (\<lambda>p. g q p * k q p) xs) ys"
  by (simp only: times_cells_def map2_same)

lemma times_outer_taller:
  "times_cells (outer (map snd d) (map snd d)) (taller (map fst d) (map fst d)) = taller_product d"
proof -
  have o: "outer (map snd d) (map snd d) = map (\<lambda>q. map (\<lambda>p. snd p * snd q) d) d"
    by (simp add: outer_def comp_def)
  have t: "taller (map fst d) (map fst d) = map (\<lambda>q. map (\<lambda>p. if fst q < fst p then 1 else 0) d) d"
    by (simp add: taller_def comp_def)
  show ?thesis
    by (simp only: o t times_cells_maps) (simp add: taller_product_def case_prod_unfold)
qed


lemma joint_posterior_real:
  fixes d :: "(real \<times> real) list"
  shows "\<exists>h'. joint_posterior h (real_pmf d) (real_pmf d) = Inr (Suc (Suc (next_ref h)), h')
     \<and> store h' (Suc (Suc (next_ref h))) =
         df_div (real_frame (map fst d) (map fst d) (taller_product d)) (Fin (cells_sum (taller_product d)))"
proof -
  let ?g = "map fst d" and ?w = "map snd d" and ?n = "next_ref h"
  let ?J = "real_frame ?g ?g (outer ?w ?w)"
  let ?L = "real_frame ?g ?g (taller ?g ?g)"
  let ?h1 = "\<lparr>store = (store h)(?n := ?J), next_ref = Suc ?n\<rparr>"
  let ?h2 = "\<lparr>store = (store ?h1)(Suc ?n := ?L), next_ref = Suc (Suc ?n)\<rparr>"
  let ?post = "df_div (real_frame ?g ?g (taller_product d)) (Fin (cells_sum (taller_product d)))"
  let ?h3 = "\<lparr>store = (store ?h2)(Suc (Suc ?n) := ?post), next_ref = Suc (Suc (Suc ?n))\<rparr>"
  have step1: "make_joint h (real_pmf d) (real_pmf d) = Inr (?n, ?h1)"
    by (simp add: make_joint_real alloc_def)
  have "df_columns (store ?h1 ?n) = ?g" and "df_index (store ?h1 ?n) = ?g"
    by (simp_all add: real_frame_def)
  then have step2: "likelihood ?h1 ?n = Inr (Suc ?n, ?h2)"
    by (simp add: likelihood_def likelihood_of_real alloc_def Let_def)
  have J: "store ?h2 ?n = ?J" and L: "store ?h2 (Suc ?n) = ?L"
    by simp_all
  have step3: "update ?h2 ?n (Suc ?n) = ((Suc (Suc ?n), Fin (cells_sum (taller_product d))), ?h3)"
    using update_real_frames [OF J L] by (simp only: times_outer_taller heap.simps)
  have run: "joint_posterior h (real_pmf d) (real_pmf d) = Inr (Suc (Suc ?n), ?h3)"
    by (simp only: joint_posterior_def step1 step2 step3 sum.case prod.case Let_def)
  have "store ?h3 (Suc (Suc ?n)) = ?post" by simp
  with run show ?thesis by blast
qed


section \<open>The conditional distribution\<close>

lemma index_of_None: "v \<notin> set g \<Longrightarrow> index_of g v = None"
  by (induction g) auto

lemma index_of_Some: "v \<in> set g \<Longrightarrow> \<exists>j. index_of g v = Some j \<and> j < length g \<and> g ! j = v"
  by (induction g) auto

lemma getitem_missing: "v \<notin> set (df_columns df) \<Longrightarrow> cond_B df v = Inl KeyError"
  by (simp add: cond_B_def getitem_def index_of_None)

lemma pmf_normalize_real:
  assumes "sum_list (map snd col) = T" and "T \<noteq> 0"
  shows "pmf_normalize (real_pmf col) = (Fin T, real_pmf (map (\<lambda>(q, x). (q, x / T)) col))"
proof -
  have mass: "nansum (ps (real_pmf col)) = Fin T"
    using assms(1) by (simp only: ps_real_pmf nansum_Fin)
  have "map (\<lambda>(q, p). (q, fdiv p (Fin T))) (real_pmf col) = real_pmf (map (\<lambda>(q, x). (q, x / T)) col)"
    using assms(2) by (simp add: real_pmf_def case_prod_unfold comp_def)
  then show ?thesis
    by (simp only: pmf_normalize_def mass Let_def)
qed

lemma sum_list_pos:
  fixes xs :: "real list"
  assumes "\<forall>x\<in>set xs. 0 \<le> x" and "y \<in> set xs" and "0 < y"
  shows "0 < sum_list xs"
  using assms
proof (induction xs)
  case Nil
  then show ?case by simp
next
  case (Cons x xs)
  then have rest: "0 \<le> sum_list xs" and x: "0 \<le> x"
    by (simp_all add: sum_list_nonneg)
  show ?case
  proof (cases "y = x")
    case True
    with Cons.prems rest show ?thesis by simp
  next
    case False
    with Cons have "0 < sum_list xs" by simp
    with x show ?thesis by simp
  qed
qed

lemma taller_product_total_pos:
  assumes pos: "\<forall>p\<in>set d. 0 < snd p"
    and q: "q \<in> set d" and p: "p \<in> set d" and less: "fst q < fst p"
  shows "0 < cells_sum (taller_product d)"
proof -
  let ?xs = "concat (taller_product d)"
  from pos have weights: "\<And>a b. (a, b) \<in> set d \<Longrightarrow> 0 \<le> b"
    by (auto dest: bspec intro: less_imp_le)
  have cell: "0 \<le> a * b * (if y < x then 1 else 0)"
    if "(x, a) \<in> set d" and "(y, b) \<in> set d" for x y a b :: real
    using weights [OF that(1)] weights [OF that(2)] by simp
  have nonneg: "\<forall>x\<in>set ?xs. 0 \<le> x"
    unfolding taller_product_def using cell by auto
  have "snd p * snd q * (if fst q < fst p then 1 else 0) \<in> set ?xs"
    using q p by (force simp: taller_product_def case_prod_unfold)
  moreover have "0 < snd p * snd q * (if fst q < fst p then 1 else 0)"
    using pos q p less by simp
  ultimately show ?thesis
    unfolding cells_sum_def using nonneg by (rule sum_list_pos [rotated])
qed


lemma real_pmf_map: "zip (map fst d) (map Fin (map k d)) = real_pmf (map (\<lambda>q. (fst q, k q)) d)"
  by (induction d) (simp_all add: real_pmf_def)

lemma cond_B_taller:
  fixes d :: "(real \<times> real) list"
  assumes pos: "\<forall>p\<in>set d. 0 < snd p"
    and v: "v \<in> set (map fst d)" and u: "u \<in> set (map fst d)" and less: "u < v"
  shows "\<exists>c. cond_B (df_div (real_frame (map fst d) (map fst d) (taller_product d))
                         (Fin (cells_sum (taller_product d)))) v = Inr c
     \<and> qs c = map fst d \<and> nansum (ps c) = Fin 1
     \<and> (\<forall>(q, x)\<in>set c. \<exists>y. x = Fin y \<and> 0 \<le> y \<and> (0 < y \<longleftrightarrow> q < v))"
proof -
  let ?g = "map fst d"
  let ?S = "cells_sum (taller_product d)"
  let ?Q = "map (map (\<lambda>x. x / ?S)) (taller_product d)"
  from u obtain q0 where q0: "q0 \<in> set d" "fst q0 = u" by auto
  from v obtain p0 where p0: "p0 \<in> set d" "fst p0 = v" by auto
  have S: "0 < ?S"
    using pos q0(1) p0(1) less unfolding q0(2) [symmetric] p0(2) [symmetric]
    by (rule taller_product_total_pos)
  then have post: "df_div (real_frame ?g ?g (taller_product d)) (Fin ?S) = real_frame ?g ?g ?Q"
    by (simp add: df_div_real_frame)
  from index_of_Some [OF v] obtain j where
    j: "index_of ?g v = Some j" "j < length d" "fst (d ! j) = v"
    by auto
  let ?a = "snd (d ! j)"
  from j(2) pos have a: "0 < ?a" by simp
  let ?k = "\<lambda>q. ?a * snd q * (if fst q < v then 1 else 0) / ?S"
  have k_nonneg: "0 \<le> ?k q" if "q \<in> set d" for q
    using pos that a S by (simp add: less_imp_le)
  have k_pos: "0 < ?k q \<longleftrightarrow> fst q < v" if "q \<in> set d" for q
    using pos that a S by simp
  have rows: "list_all (\<lambda>r. j < length r) ?Q"
    using j(2) by (simp add: taller_product_def list_all_iff case_prod_unfold)
  have "map (\<lambda>r. r ! j) ?Q = map ?k d"
    using j(2) j(3) by (simp add: taller_product_def case_prod_unfold comp_def)
  then have column: "column_at (real_frame ?g ?g ?Q) j = map Fin (map ?k d)"
    by (simp only: column_at_real_frame [OF rows])
  let ?col = "map (\<lambda>q. (fst q, ?k q)) d"
  have axes: "df_columns (real_frame ?g ?g ?Q) = ?g" "df_index (real_frame ?g ?g ?Q) = ?g"
    by (simp_all add: real_frame_def)
  have get: "getitem (real_frame ?g ?g ?Q) v = Inr (real_pmf ?col)"
    by (simp only: getitem_def axes j(1) option.case column real_pmf_map)
  let ?T = "sum_list (map snd ?col)"
  have T: "0 < ?T"
  proof (rule sum_list_pos)
    show "\<forall>x\<in>set (map snd ?col). 0 \<le> x"
      using k_nonneg by auto
    show "?k q0 \<in> set (map snd ?col)"
      using q0(1) by (auto simp: image_iff)
    show "0 < ?k q0"
      using k_pos [OF q0(1)] q0(2) less by simp
  qed
  let ?c = "real_pmf (map (\<lambda>(q, x). (q, x / ?T)) ?col)"
  have norm: "pmf_normalize (real_pmf ?col) = (Fin ?T, ?c)"
    using T by (intro pmf_normalize_real) simp_all
  have run: "cond_B (real_frame ?g ?g ?Q) v = Inr ?c"
    by (simp only: cond_B_def get Pmf_def norm sum.case snd_conv)
  have labels: "qs ?c = ?g"
    by (simp add: qs_real_pmf comp_def)
  have "sum_list (map snd (map (\<lambda>(q, x). (q, x / ?T)) ?col)) = ?T / ?T"
    using sum_list_div [of ?T "map snd ?col"] by (simp add: comp_def)
  then have mass: "nansum (ps ?c) = Fin 1"
    using T by (simp only: ps_real_pmf nansum_Fin) simp
  have support: "\<forall>(q, x)\<in>set ?c. \<exists>y. x = Fin y \<and> 0 \<le> y \<and> (0 < y \<longleftrightarrow> q < v)"
  proof -
    have "\<exists>y. x = Fin y \<and> 0 \<le> y \<and> (0 < y \<longleftrightarrow> q < v)" if "(q, x) \<in> set ?c" for q x
    proof -
      from that obtain e where e: "e \<in> set d" "q = fst e" "x = Fin (?k e / ?T)"
        by (auto simp: real_pmf_def)
      have "0 \<le> ?k e / ?T"
        using k_nonneg [OF e(1)] T by (rule divide_nonneg_pos)
      moreover have "0 < ?k e / ?T \<longleftrightarrow> 0 < ?k e"
        using T by (simp only: zero_less_divide_iff) auto
      ultimately show ?thesis
        using e(2) e(3) k_pos [OF e(1)] by blast
    qed
    then show ?thesis by blast
  qed
  from run labels mass support show ?thesis
    unfolding post by blast
qed


section \<open>The conditional distribution of the height example\<close>

lemma height_qs_eq: "height_qs = map (\<lambda>i. 154 + real i * (1 / 2)) [0..<96]"
  by (simp add: height_qs_def arange_def)

lemma height_qs_members: "154 \<in> set height_qs" "180 \<in> set height_qs"
proof -
  have "(154::real) = 154 + real 0 * (1 / 2)" and "(180::real) = 154 + real 52 * (1 / 2)"
    by simp_all
  moreover have "(0::nat) \<in> set [0..<96]" and "(52::nat) \<in> set [0..<96]"
    by simp_all
  ultimately show "154 \<in> set height_qs" "180 \<in> set height_qs"
    unfolding height_qs_eq set_map by (blast intro: image_eqI)+
qed

lemma height_qs_lower: "v \<in> set height_qs \<Longrightarrow> 154 \<le> v"
  unfolding height_qs_eq by auto

lemma norm_pdf_pos: "0 < s \<Longrightarrow> 0 < norm_pdf m s x"
  by (simp add: norm_pdf_def)

lemma prior_real:
  "\<exists>d. prior = real_pmf d \<and> map fst d = height_qs \<and> (\<forall>p\<in>set d. 0 < snd p)"
proof -
  let ?f = "norm_pdf 178 (77 / 10)"
  let ?raw = "map (\<lambda>q. (q, ?f q)) height_qs"
  let ?T = "sum_list (map snd ?raw)"
  have f: "0 < ?f q" for q
    by (rule norm_pdf_pos) simp
  have zip: "zip height_qs (map (\<lambda>q. Fin (?f q)) height_qs) = real_pmf ?raw"
    using real_pmf_map [of ?raw snd] by (simp add: comp_def)
  have T: "0 < ?T"
  proof (rule sum_list_pos)
    show "\<forall>x\<in>set (map snd ?raw). 0 \<le> x"
      using f by (auto intro: less_imp_le)
    show "?f 154 \<in> set (map snd ?raw)"
      using height_qs_members(1) by (auto simp: image_iff)
    show "0 < ?f 154" by (rule f)
  qed
  let ?d = "map (\<lambda>(q, x). (q, x / ?T)) ?raw"
  have "pmf_normalize (real_pmf ?raw) = (Fin ?T, real_pmf ?d)"
    using T by (intro pmf_normalize_real) simp_all
  then have "prior = real_pmf ?d"
    by (simp only: prior_def Let_def zip snd_conv)
  moreover have "map fst ?d = height_qs"
    by (simp add: comp_def)
  moreover have "\<forall>p\<in>set ?d. 0 < snd p"
    using f T by auto
  ultimately show ?thesis by blast
qed

text \<open>
  Claim C7. On the height example (heights 154 to 201.5 in steps of 0.5, a normal prior
  with mean 178 and standard deviation 7.7, the evidence that A is taller than B), the
  posterior is computed without error and its columns are labelled by the grid. The
  conditional distribution for a fixed height of A raises \<open>KeyError\<close> for every value
  that is not a point of the grid. The value 180 is a point of the grid, and there the
  conditional distribution is returned: it is labelled by the grid, its weights are
  finite and add up to 1, and a weight is positive exactly where the height is below
  180, so that the support lies entirely below 180.
\<close>

theorem height_conditional:
  "\<exists>p h'. height_posterior h = Inr (p, h')
     \<and> df_columns (store h' p) = height_qs
     \<and> (\<forall>v. v \<notin> set height_qs \<longrightarrow> cond_B (store h' p) v = Inl KeyError)
     \<and> 180 \<in> set height_qs
     \<and> (\<exists>c. cond_B (store h' p) 180 = Inr c \<and> qs c = height_qs \<and> nansum (ps c) = Fin 1
          \<and> (\<forall>(q, x)\<in>set c. \<exists>y. x = Fin y \<and> 0 \<le> y \<and> (0 < y \<longleftrightarrow> q < 180)))"
proof -
  from prior_real obtain d where
    d: "prior = real_pmf d" "map fst d = height_qs" "\<forall>p\<in>set d. 0 < snd p"
    by blast
  let ?post = "df_div (real_frame (map fst d) (map fst d) (taller_product d))
      (Fin (cells_sum (taller_product d)))"
  from joint_posterior_real [of h d] obtain h' where
    run: "height_posterior h = Inr (Suc (Suc (next_ref h)), h')"
    and post: "store h' (Suc (Suc (next_ref h))) = ?post"
    unfolding height_posterior_def d(1) by blast
  have cols: "df_columns ?post = height_qs"
    by (simp add: df_div_def real_frame_def d(2))
  have missing: "\<forall>v. v \<notin> set height_qs \<longrightarrow> cond_B ?post v = Inl KeyError"
    using cols by (simp add: getitem_missing)
  have "154 \<in> set (map fst d)" and "180 \<in> set (map fst d)"
    unfolding d(2) by (rule height_qs_members)+
  with d(3) have "\<exists>c. cond_B ?post 180 = Inr c \<and> qs c = map fst d \<and> nansum (ps c) = Fin 1
      \<and> (\<forall>(q, x)\<in>set c. \<exists>y. x = Fin y \<and> 0 \<le> y \<and> (0 < y \<longleftrightarrow> q < 180))"
    by (intro cond_B_taller [where u = 154]) simp_all
  then have cond: "\<exists>c. cond_B ?post 180 = Inr c \<and> qs c = height_qs \<and> nansum (ps c) = Fin 1
      \<and> (\<forall>(q, x)\<in>set c. \<exists>y. x = Fin y \<and> 0 \<le> y \<and> (0 < y \<longleftrightarrow> q < 180))"
    unfolding d(2) .
  show ?thesis
    apply (rule exI [of _ "Suc (Suc (next_ref h))"], rule exI [of _ h'])
    apply (simp only: post)
    using run cols missing cond height_qs_members(2) by blast
qed

theorem height_conditional_witness:
  "\<exists>p h' c y. height_posterior empty_heap = Inr (p, h')
     \<and> cond_B (store h' p) 0 = Inl KeyError
     \<and> cond_B (store h' p) 180 = Inr c \<and> nansum (ps c) = Fin 1
     \<and> (154, Fin y) \<in> set c \<and> 0 < y"
proof -
  from height_conditional [of empty_heap] obtain p h' c where
    run: "height_posterior empty_heap = Inr (p, h')"
    and missing: "\<forall>v. v \<notin> set height_qs \<longrightarrow> cond_B (store h' p) v = Inl KeyError"
    and cond: "cond_B (store h' p) 180 = Inr c" "qs c = height_qs" "nansum (ps c) = Fin 1"
    and support: "\<forall>(q, x)\<in>set c. \<exists>y. x = Fin y \<and> 0 \<le> y \<and> (0 < y \<longleftrightarrow> q < 180)"
    by blast
  have "(0::real) \<notin> set height_qs"
    using height_qs_lower [of 0] by auto
  with missing have key: "cond_B (store h' p) 0 = Inl KeyError"
    by blast
  have "154 \<in> set (map fst c)"
    using height_qs_members(1) cond(2) by (simp only: qs_def)
  then obtain x where x: "(154, x) \<in> set c"
    by force
  with support obtain y where "x = Fin y" "0 < y"
    by fastforce
  with run key cond x show ?thesis by blast
qed

end
